theory Spec2Isabelle
  imports Main "HOL-Library.Sublist" "HOL-Library.AList"
begin

text \<open>
  A shallow embedding of \<open>src/index.ts\<close> of the icon spritesheet plugin: the derivation of
  the identifiers, the normalisation of an icon into a symbol, the texts of the sprite and
  of the type manifest, the writer that writes only on change, the pipeline
  \<open>generateIcons\<close> and the hook \<open>configResolved\<close>. Line numbers are those of the source
  file. The runtime and the libraries (strings, paths, the file system, file discovery,
  the markup parser) are modelled as far as the pipeline uses them.
\<close>

section \<open>Strings\<close>

text \<open>
  JavaScript strings are modelled as \<open>string\<close> (lists of \<open>char\<close>); file names and
  markup are taken over the ASCII alphabet, where a \<open>char\<close> is one code unit.
\<close>

text \<open>\<open>String.prototype.split(sep)\<close> for a one-character separator: the empty string
  splits into one empty piece, and a separator at either end yields an empty piece.\<close>

fun split_on :: "char \<Rightarrow> string \<Rightarrow> string list" where
  "split_on d [] = [ [] ]"
| "split_on d (c # cs) =
     (if c = d then [] # split_on d cs
      else (case split_on d cs of
              [] \<Rightarrow> [ [c] ]
            | w # ws \<Rightarrow> (c # w) # ws))"

text \<open>\<open>Array.prototype.join(sep)\<close>.\<close>

fun joinWith :: "string \<Rightarrow> string list \<Rightarrow> string" where
  "joinWith sep [] = []"
| "joinWith sep [x] = x"
| "joinWith sep (x # y # ys) = x @ sep @ joinWith sep (y # ys)"

text \<open>\<open>String.prototype.toUpperCase\<close> on a single character, restricted to ASCII:
  the letters a to z move to A to Z, every other character stays.\<close>

definition toUpperCase :: "char \<Rightarrow> string" where
  "toUpperCase c =
     (case map_of (zip ''abcdefghijklmnopqrstuvwxyz'' ''ABCDEFGHIJKLMNOPQRSTUVWXYZ'') c of
        Some u \<Rightarrow> [u]
      | None \<Rightarrow> [c])"

text \<open>\<open>String.prototype.endsWith\<close>.\<close>

definition endsWith :: "string \<Rightarrow> string \<Rightarrow> bool" where
  "endsWith s sfx = (length sfx \<le> length s \<and> drop (length s - length sfx) s = sfx)"

text \<open>White space as \<open>String.prototype.trim\<close> sees it in ASCII: tab, line feed, vertical
  tab, form feed, carriage return and space.\<close>

definition isSpace :: "char \<Rightarrow> bool" where
  "isSpace c = (c \<in> set [CHR 0x09, CHR 0x0A, CHR 0x0B, CHR 0x0C, CHR 0x0D, CHR 0x20])"

definition trim :: "string \<Rightarrow> string" where
  "trim s = rev (dropWhile isSpace (rev (dropWhile isSpace s)))"


section \<open>Identifier derivation\<close>

text \<open>\<open>word.charAt(0).toUpperCase() + word.slice(1)\<close>, the callback of line 49.\<close>

definition capitalize :: "string \<Rightarrow> string" where
  "capitalize word = (case word of [] \<Rightarrow> [] | c # cs \<Rightarrow> toUpperCase c @ cs)"

text \<open>\<open>fileNameToCamelCase\<close>, lines 47 to 51.\<close>

definition fileNameToCamelCase :: "string \<Rightarrow> string" where
  "fileNameToCamelCase fileName =
     (let words = split_on CHR ''-'' fileName;
          capitalizedWords = map capitalize words
      in joinWith [] capitalizedWords)"

text \<open>\<open>file.replace(/\.svg$/, "")\<close>: a final \<open>.svg\<close> is cut off, anything else is kept.\<close>

definition stripSvgExt :: "string \<Rightarrow> string" where
  "stripSvgExt file =
     (if endsWith file ''.svg'' then take (length file - 4) file else file)"

text \<open>The identifier of a discovered file, \<open>fileNameToCamelCase(file.replace(/\.svg$/, ""))\<close>,
  as lines 41 and 69 both compute it from the path relative to the input directory.\<close>

definition iconName :: "string \<Rightarrow> string" where
  "iconName file = fileNameToCamelCase (stripSvgExt file)"

text \<open>The derivation in the words of the specification: the same steps, applied to the
  base name of the file (the part after the last slash) with its extension removed.\<close>

definition baseName :: "string \<Rightarrow> string" where
  "baseName file = last (split_on CHR ''/'' file)"

definition spec_iconName :: "string \<Rightarrow> string" where
  "spec_iconName file =
     joinWith [] (map capitalize (split_on CHR ''-'' (stripSvgExt (baseName file))))"

section \<open>Parsed markup\<close>

text \<open>
  The markup parser is a library outside the repository. Its element interface is
  modelled by a record: the tag name, the attributes in document order and the inner
  markup. \<open>parse(input).querySelector("svg")\<close> is a parameter of the pipeline
  (see \<open>host\<close> below).
\<close>

record element =
  tagName :: string
  rawAttributes :: "(string \<times> string) list"
  innerHTML :: string

text \<open>\<open>String.prototype.toLowerCase\<close>, restricted to ASCII.\<close>

definition toLowerCase :: "string \<Rightarrow> string" where
  "toLowerCase s =
     map (\<lambda>c. case map_of (zip ''ABCDEFGHIJKLMNOPQRSTUVWXYZ'' ''abcdefghijklmnopqrstuvwxyz'') c of
                Some l \<Rightarrow> l
              | None \<Rightarrow> c) s"

text \<open>
  \<open>setAttribute\<close> of the parser library: the first attribute whose name equals the key
  without regard to letter case takes the value and keeps its name and place; when there
  is none, the attribute is appended under the key as given. \<open>removeAttribute\<close> deletes
  the attribute whose name is exactly the key.
\<close>

definition setAttribute :: "string \<Rightarrow> string \<Rightarrow> element \<Rightarrow> element" where
  "setAttribute key val e =
     (let k2 = toLowerCase key;
          attrs = rawAttributes e;
          key' = (case find (\<lambda>k. toLowerCase k = k2) (map fst attrs) of
                    Some k \<Rightarrow> k
                  | None \<Rightarrow> key)
      in e\<lparr>rawAttributes := AList.update key' val attrs\<rparr>)"

definition removeAttribute :: "string \<Rightarrow> element \<Rightarrow> element" where
  "removeAttribute key e = e\<lparr>rawAttributes := AList.delete key (rawAttributes e)\<rparr>"

text \<open>
  Both operations rebuild the attribute text of the open tag through \<open>quoteAttribute\<close>
  of the library: double quotes become \<open>&quot;\<close>, the value goes through
  \<open>JSON.stringify\<close>, the escapes of tab, line feed and carriage return are turned back
  into the characters, and every backslash that is left is deleted.
\<close>

definition replaceQuot :: "string \<Rightarrow> string" where
  "replaceQuot s = concat (map (\<lambda>c. if c = CHR 0x22 then ''&quot;'' else [c]) s)"

definition hexDigit :: "nat \<Rightarrow> char" where
  "hexDigit n = ''0123456789abcdef'' ! n"

text \<open>\<open>JSON.stringify\<close> on a string: the short escapes, \<open>\u00XX\<close> for the other control
  characters, everything between double quotes.\<close>

definition jsonEscape :: "char \<Rightarrow> string" where
  "jsonEscape c =
     (if c = CHR 0x22 then [CHR 0x5C, CHR 0x22]
      else if c = CHR 0x5C then [CHR 0x5C, CHR 0x5C]
      else if c = CHR 0x08 then [CHR 0x5C, CHR ''b'']
      else if c = CHR 0x0C then [CHR 0x5C, CHR ''f'']
      else if c = CHR 0x0A then [CHR 0x5C, CHR ''n'']
      else if c = CHR 0x0D then [CHR 0x5C, CHR ''r'']
      else if c = CHR 0x09 then [CHR 0x5C, CHR ''t'']
      else if (of_char c :: nat) < 32 then
        CHR 0x5C # ''u00'' @ [hexDigit (of_char c div 16), hexDigit (of_char c mod 16)]
      else [c])"

definition jsonStringify :: "string \<Rightarrow> string" where
  "jsonStringify s = [CHR 0x22] @ concat (map jsonEscape s) @ [CHR 0x22]"

text \<open>\<open>s.replace(/\\a/g, r)\<close>: every backslash followed by the character \<open>a\<close> becomes
  \<open>r\<close>, from left to right.\<close>

fun replaceEscape :: "char \<Rightarrow> char \<Rightarrow> string \<Rightarrow> string" where
  "replaceEscape a r (x # y # s) =
     (if x = CHR 0x5C \<and> y = a then r # replaceEscape a r s
      else x # replaceEscape a r (y # s))"
| "replaceEscape a r s = s"

definition quoteAttribute :: "string \<Rightarrow> string" where
  "quoteAttribute attr =
     filter (\<lambda>c. c \<noteq> CHR 0x5C)
       (replaceEscape CHR ''r'' CHR 0x0D
         (replaceEscape CHR ''n'' CHR 0x0A
           (replaceEscape CHR ''t'' CHR 0x09
             (jsonStringify (replaceQuot attr)))))"

text \<open>One attribute of the rebuilt open tag: the bare name when the quoted value is empty.\<close>

definition attrText :: "string \<times> string \<Rightarrow> string" where
  \<open>attrText kv =
     (let val = quoteAttribute (snd kv)
      in if val = ''null'' \<or> val = ''""'' then fst kv else fst kv @ ''='' @ val)\<close>

definition rawAttrs :: "element \<Rightarrow> string" where
  "rawAttrs e = joinWith '' '' (map attrText (rawAttributes e))"

text \<open>Serialisation of an element whose attributes have been rebuilt: open tag with the
  attribute text, inner markup, close tag.\<close>

definition toString :: "element \<Rightarrow> string" where
  "toString e =
     (let attrs = (if rawAttrs e = [] then [] else '' '' @ rawAttrs e)
      in ''<'' @ tagName e @ attrs @ ''>'' @ innerHTML e @ ''</'' @ tagName e @ ''>'')"


section \<open>Symbol fragments and the sprite text\<close>

text \<open>Lines 78 to 84: the mutation of the located element, in the order of the source.\<close>

definition toSymbol :: "string \<Rightarrow> element \<Rightarrow> element" where
  "toSymbol fileName svg =
     removeAttribute ''height''
       (removeAttribute ''width''
         (removeAttribute ''version''
           (removeAttribute ''xmlns:xlink''
             (removeAttribute ''xmlns''
               (setAttribute ''id'' fileName (svg\<lparr>tagName := ''symbol''\<rparr>))))))"



text \<open>Lines 72 to 85 for one file whose text has been read: \<open>None\<close> is the early
  return of line 76, \<open>Some\<close> the trimmed serialisation of line 85.\<close>

definition symbolOf :: "(string \<Rightarrow> element option) \<Rightarrow> string \<Rightarrow> string \<Rightarrow> string option" where
  "symbolOf parse_svg file input =
     (let fileName = iconName file
      in case parse_svg input of
           None \<Rightarrow> None
         | Some svg \<Rightarrow> Some (trim (toString (toSymbol fileName svg))))"

text \<open>\<open>symbols.filter(Boolean)\<close>: \<open>undefined\<close> and the empty string are dropped.\<close>

fun filterBoolean :: "string option list \<Rightarrow> string list" where
  "filterBoolean [] = []"
| "filterBoolean (None # xs) = filterBoolean xs"
| "filterBoolean (Some s # xs) = (if s = [] then filterBoolean xs else s # filterBoolean xs)"

definition newline :: string where
  "newline = [CHR 0x0A]"

definition xmlDeclaration :: string where
  \<open>xmlDeclaration = ''<?xml version="1.0" encoding="UTF-8"?>''\<close>

definition svgOpenTag :: string where
  \<open>svgOpenTag = ''<svg xmlns="http://www.w3.org/2000/svg" xmlns:xlink="http://www.w3.org/1999/xlink" width="0" height="0">''\<close>

text \<open>Lines 88 to 95: the text of the sprite.\<close>

definition spriteOutput :: "string option list \<Rightarrow> string" where
  "spriteOutput symbols =
     joinWith newline
       ([xmlDeclaration, svgOpenTag, ''<defs>'']
        @ filterBoolean symbols
        @ [''</defs>'', ''</svg>''])"

text \<open>Lines 101 to 111: the text of the type manifest.\<close>

definition typesOutput :: "string list \<Rightarrow> string" where
  \<open>typesOutput names =
     joinWith newline
       ([''// This file is generated by icon spritesheet generator'',
         [],
         ''export type IconName ='']
        @ map (\<lambda>name. ''  | "'' @ name @ ''"'') names
        @ [ [],
           ''export const iconNames = ['']
        @ map (\<lambda>name. ''  "'' @ name @ ''",'') names
        @ [''] as const'',
           [] ])\<close>

section \<open>Paths\<close>

text \<open>
  The path functions of the runtime (POSIX flavour) are library code. A path text is
  cut into its non-empty segments; an absolute location is the list of its segments
  below the root.
\<close>

definition segments :: "string \<Rightarrow> string list" where
  "segments p = filter (\<lambda>s. s \<noteq> []) (split_on CHR ''/'' p)"

definition isAbsolute :: "string \<Rightarrow> bool" where
  "isAbsolute p = (case p of [] \<Rightarrow> False | c # _ \<Rightarrow> c = CHR ''/'')"

text \<open>Resolution of \<open>.\<close> and \<open>..\<close> segments; \<open>keepUp\<close> says whether leading \<open>..\<close>
  segments are kept (relative paths) or dropped (absolute paths).\<close>

fun normalizeSegs :: "bool \<Rightarrow> string list \<Rightarrow> string list \<Rightarrow> string list" where
  "normalizeSegs keepUp acc [] = acc"
| "normalizeSegs keepUp acc (s # ss) =
     (if s = ''.'' then normalizeSegs keepUp acc ss
      else if s = ''..'' then
        (if acc \<noteq> [] \<and> last acc \<noteq> ''..'' then normalizeSegs keepUp (butlast acc) ss
         else if keepUp then normalizeSegs keepUp (acc @ [''..'']) ss
         else normalizeSegs keepUp acc ss)
      else normalizeSegs keepUp (acc @ [s]) ss)"

text \<open>\<open>path.normalize\<close>.\<close>

definition path_normalize :: "string \<Rightarrow> string" where
  "path_normalize p =
     (if p = [] then ''.''
      else
        (let absolute = isAbsolute p;
             trailingSeparator = endsWith p ''/'';
             body = joinWith ''/'' (normalizeSegs (\<not> absolute) [] (segments p))
         in if body = [] then (if absolute then ''/'' else if trailingSeparator then ''./'' else ''.'')
            else (if absolute then ''/'' else []) @ body @ (if trailingSeparator then ''/'' else [])))"

text \<open>\<open>path.join\<close>: the non-empty arguments, joined by a slash and normalised.\<close>

definition path_join :: "string list \<Rightarrow> string" where
  "path_join parts =
     (let joined = joinWith ''/'' (filter (\<lambda>s. s \<noteq> []) parts)
      in if joined = [] then ''.'' else path_normalize joined)"

text \<open>\<open>path.resolve\<close> against the working directory of the process, as a location.\<close>

definition resolve :: "string list \<Rightarrow> string \<Rightarrow> string list" where
  "resolve wd p =
     (if isAbsolute p then normalizeSegs False [] (segments p)
      else normalizeSegs False [] (wd @ segments p))"

fun dropCommon :: "string list \<Rightarrow> string list \<Rightarrow> string list \<times> string list" where
  "dropCommon (x # xs) (y # ys) = (if x = y then dropCommon xs ys else (x # xs, y # ys))"
| "dropCommon xs ys = (xs, ys)"

text \<open>\<open>path.relative(from, to)\<close>: both are resolved, the common directories are dropped,
  and what is left of \<open>from\<close> is climbed by \<open>..\<close> segments.\<close>

definition path_relative :: "string list \<Rightarrow> string \<Rightarrow> string \<Rightarrow> string" where
  "path_relative wd from to =
     (case dropCommon (resolve wd from) (resolve wd to) of
        (up, down) \<Rightarrow> joinWith ''/'' (replicate (length up) ''..'' @ down))"


section \<open>The file system and the console\<close>

datatype errno = ENOENT | EACCES | EISDIR | ENOTDIR

text \<open>What the pipeline prints: the warnings of lines 28 and 75 and the two messages
  passed to \<open>writeIfChanged\<close>, each with the path text it shows.\<close>

datatype notice =
    NoSvgFiles string
  | NoSvgTag string
  | GeneratedSprite string
  | GeneratedTypes string

text \<open>
  The world a run acts on: the working directory of the process, the regular files with
  their text, the directories, the locations the process may not access, the log of the
  \<open>writeFile\<close> calls that succeeded, and the console.
\<close>

record world =
  processCwd :: "string list"
  contents :: "string list \<rightharpoonup> string"
  directories :: "string list set"
  denied :: "string list set"
  writes :: "(string list \<times> string) list"
  console :: "notice list"

definition isDir :: "world \<Rightarrow> string list \<Rightarrow> bool" where
  "isDir w a = (a = [] \<or> a \<in> directories w)"

text \<open>\<open>fs.readFile(path, "utf8")\<close>.\<close>

definition readFile :: "world \<Rightarrow> string \<Rightarrow> errno + string" where
  "readFile w p =
     (let a = resolve (processCwd w) p
      in if a \<in> denied w then Inl EACCES
         else if isDir w a then Inl EISDIR
         else (case contents w a of None \<Rightarrow> Inl ENOENT | Some text \<Rightarrow> Inr text))"

text \<open>\<open>fs.writeFile(path, content, "utf8")\<close>: the directory of the file must exist;
  the whole text is replaced.\<close>

definition writeFile :: "world \<Rightarrow> string \<Rightarrow> string \<Rightarrow> errno + world" where
  "writeFile w p content =
     (let a = resolve (processCwd w) p
      in if a \<in> denied w then Inl EACCES
         else if isDir w a then Inl EISDIR
         else if \<not> isDir w (butlast a) then Inl ENOENT
         else Inr (w\<lparr>contents := (contents w)(a \<mapsto> content), writes := writes w @ [(a, content)]\<rparr>))"

text \<open>\<open>mkdir(path, {recursive: true})\<close>: the empty path is refused; every missing
  directory on the way is created; an existing directory is left alone.\<close>

definition mkdir :: "world \<Rightarrow> string \<Rightarrow> errno + world" where
  "mkdir w p =
     (let a = resolve (processCwd w) p
      in if p = [] then Inl ENOENT
         else if \<exists>q \<in> set (prefixes a). contents w q \<noteq> None then Inl ENOTDIR
         else if \<exists>q \<in> set (prefixes a). \<not> isDir w q \<and> q \<in> denied w then Inl EACCES
         else Inr (w\<lparr>directories := directories w \<union> set (prefixes a)\<rparr>))"

text \<open>\<open>fs.access(path, F_OK)\<close> turned into a boolean, as lines 146 to 149 do.\<close>

definition pathExists :: "world \<Rightarrow> string \<Rightarrow> bool" where
  "pathExists w p = (let a = resolve (processCwd w) p in isDir w a \<or> contents w a \<noteq> None)"

text \<open>\<open>console.log\<close>.\<close>

definition consoleLog :: "notice \<Rightarrow> world \<Rightarrow> world" where
  "consoleLog n w = w\<lparr>console := console w @ [n]\<rparr>"


section \<open>The idempotent writer\<close>

text \<open>
  \<open>writeIfChanged\<close>, lines 125 to 137. The \<open>catch\<close> block also receives a failure of the
  write of line 129, and then writes again.
\<close>

definition writeIfChanged :: "world \<Rightarrow> string \<Rightarrow> string \<Rightarrow> notice \<Rightarrow> errno + world" where
  "writeIfChanged w filepath newContent message =
     (let catchBlock =
            (case writeFile w filepath newContent of
               Inl e \<Rightarrow> Inl e
             | Inr w' \<Rightarrow> Inr (consoleLog message w'))
      in case readFile w filepath of
           Inl e \<Rightarrow> catchBlock
         | Inr currentContent \<Rightarrow>
             (if currentContent \<noteq> newContent then
                (case writeFile w filepath newContent of
                   Inl e \<Rightarrow> catchBlock
                 | Inr w' \<Rightarrow> Inr (consoleLog message w'))
              else Inr w))"

section \<open>The pipeline\<close>

text \<open>
  Two libraries stay parameters: \<open>glob.sync("**/*.svg", {cwd: dir})\<close>, which lists the
  icon files below a directory as relative paths, and the markup parser, as the result
  of \<open>parse(input).querySelector("svg")\<close>.
\<close>

record host =
  glob_sync :: "world \<Rightarrow> string \<Rightarrow> string list"
  parse_svg :: "string \<Rightarrow> element option"

text \<open>The options of the plugin, lines 11 to 17; an absent option is \<open>None\<close>.\<close>

record pluginProps =
  withTypes :: "bool option"
  inputDir :: string
  outputDir :: string
  fileName :: "string option"
  cwd :: "string option"

text \<open>The task of lines 68 to 86 for one file: a failed read rejects the task.\<close>

definition symbolTask :: "host \<Rightarrow> world \<Rightarrow> string \<Rightarrow> string \<Rightarrow> errno + string option" where
  "symbolTask h w inDir file =
     (case readFile w (path_join [inDir, file]) of
        Inl e \<Rightarrow> Inl e
      | Inr input \<Rightarrow> Inr (symbolOf (parse_svg h) file input))"

text \<open>\<open>Promise.all\<close>: the results in the order of the tasks, or a rejection. When several
  tasks reject, the first one in the order of the list is reported.\<close>

fun promiseAll :: "(errno + 'a) list \<Rightarrow> errno + 'a list" where
  "promiseAll [] = Inr []"
| "promiseAll (Inl e # rs) = Inl e"
| "promiseAll (Inr x # rs) = (case promiseAll rs of Inl e \<Rightarrow> Inl e | Inr xs \<Rightarrow> Inr (x # xs))"

text \<open>
  \<open>generateSvgSprite\<close>, lines 55 to 98. The tasks run concurrently: \<open>order\<close> lists the
  task indices in the order in which the tasks complete, which is the order of the
  warnings of line 75 on the console.
\<close>

definition skipWarnings :: "nat list \<Rightarrow> string list \<Rightarrow> string option list \<Rightarrow> notice list" where
  "skipWarnings order files symbols =
     map (\<lambda>i. NoSvgTag (files ! i))
       (filter (\<lambda>i. i < length files \<and> symbols ! i = None) order)"

definition generateSvgSprite ::
  "host \<Rightarrow> nat list \<Rightarrow> world \<Rightarrow> string list \<Rightarrow> string \<Rightarrow> string \<Rightarrow> string \<Rightarrow> errno + world" where
  "generateSvgSprite h order w files inDir outputPath outputDirRelative =
     (case promiseAll (map (symbolTask h w inDir) files) of
        Inl e \<Rightarrow> Inl e
      | Inr symbols \<Rightarrow>
          (let output = spriteOutput symbols
           in writeIfChanged (w\<lparr>console := console w @ skipWarnings order files symbols\<rparr>)
                outputPath output (GeneratedSprite outputDirRelative)))"

text \<open>\<open>generateTypes\<close>, lines 100 to 119.\<close>

definition generateTypes :: "world \<Rightarrow> string list \<Rightarrow> string \<Rightarrow> errno + world" where
  "generateTypes w names outputPath =
     (let output = typesOutput names
      in writeIfChanged w outputPath output (GeneratedTypes outputPath))"

text \<open>\<open>process.cwd()\<close> as a path text.\<close>

definition process_cwd :: "world \<Rightarrow> string" where
  "process_cwd w = ''/'' @ joinWith ''/'' (processCwd w)"

text \<open>\<open>generateIcons\<close>, lines 19 to 45.\<close>

definition generateIcons :: "host \<Rightarrow> nat list \<Rightarrow> world \<Rightarrow> pluginProps \<Rightarrow> errno + world" where
  "generateIcons h order w props =
     (let cwdToUse = (case cwd props of None \<Rightarrow> process_cwd w | Some c \<Rightarrow> c);
          inputDirRelative = path_relative (processCwd w) cwdToUse (inputDir props);
          outputDirRelative = path_relative (processCwd w) cwdToUse (outputDir props);
          files = glob_sync h w (inputDir props)
      in if length files = 0 then Inr (consoleLog (NoSvgFiles inputDirRelative) w)
         else
           (case mkdir w outputDirRelative of
              Inl e \<Rightarrow> Inl e
            | Inr w1 \<Rightarrow>
                (case generateSvgSprite h order w1 files (inputDir props)
                        (path_join [outputDir props,
                                    case fileName props of None \<Rightarrow> ''sprite.svg'' | Some f \<Rightarrow> f])
                        outputDirRelative of
                   Inl e \<Rightarrow> Inl e
                 | Inr w2 \<Rightarrow>
                     (if (case withTypes props of None \<Rightarrow> False | Some b \<Rightarrow> b) then
                        generateTypes w2 (map iconName files)
                          (path_join [outputDir props, ''types.ts''])
                      else Inr w2))))"

text \<open>
  The hook \<open>configResolved\<close>, lines 144 to 158: the sprite is looked for below the
  working-directory override, and \<open>generateIcons\<close> is called without the override.
  \<open>normalizePath\<close> is \<open>path.normalize\<close> on a POSIX host.
\<close>

definition configResolved :: "host \<Rightarrow> nat list \<Rightarrow> world \<Rightarrow> pluginProps \<Rightarrow> errno + world" where
  "configResolved h order w props =
     (let outputSvgPath =
            path_normalize
              (path_join [case cwd props of None \<Rightarrow> process_cwd w | Some c \<Rightarrow> c,
                          outputDir props,
                          case fileName props of None \<Rightarrow> ''sprite.svg'' | Some f \<Rightarrow> f]);
          outputSvgExists = pathExists w outputSvgPath
      in if \<not> outputSvgExists then generateIcons h order w (props\<lparr>cwd := None\<rparr>)
         else Inr w)"


section \<open>A sample project\<close>

text \<open>
  A small project on which the definitions are evaluated: the process runs in \<open>/proj\<close>,
  the directory \<open>/proj/icons\<close> holds one icon and one file without a root vector
  element. The sample parser knows the text of the icon; the sample file discovery
  looks for three candidate names below the directory it is given.
\<close>

definition arrowSvg :: string where
  \<open>arrowSvg = ''<svg xmlns="http://www.w3.org/2000/svg" width="24" viewBox="0 0 24 24"><path></path></svg>''\<close>

definition arrowElement :: element where
  "arrowElement =
     \<lparr>tagName = ''svg'',
      rawAttributes = [(''xmlns'', ''http://www.w3.org/2000/svg''), (''width'', ''24''),
                       (''viewBox'', ''0 0 24 24'')],
      innerHTML = ''<path></path>''\<rparr>"

definition sampleParse :: "string \<Rightarrow> element option" where
  "sampleParse input = (if input = arrowSvg then Some arrowElement else None)"

definition sampleGlob :: "world \<Rightarrow> string \<Rightarrow> string list" where
  "sampleGlob w dir =
     filter (\<lambda>file. contents w (resolve (processCwd w) (path_join [dir, file])) \<noteq> None)
       [''arrow-right.svg'', ''broken.svg'', ''close.svg'']"

definition sampleHost :: host where
  "sampleHost = \<lparr>glob_sync = sampleGlob, parse_svg = sampleParse\<rparr>"

definition sampleWorld :: world where
  "sampleWorld =
     \<lparr>processCwd = [''proj''],
      contents = [ [''proj'', ''icons'', ''arrow-right.svg''] \<mapsto> arrowSvg,
                  [''proj'', ''icons'', ''broken.svg''] \<mapsto> ''<p>no icon</p>''],
      directories = {[''proj''], [''proj'', ''icons'']},
      denied = {},
      writes = [],
      console = []\<rparr>"

definition sampleProps :: pluginProps where
  "sampleProps =
     \<lparr>withTypes = Some True, inputDir = ''icons'', outputDir = ''out'',
      fileName = None, cwd = None\<rparr>"




text \<open>The same project with an application directory \<open>/proj/app\<close> that already holds a
  sprite in its own output directory.\<close>

definition nestedWorld :: world where
  "nestedWorld =
     sampleWorld
       \<lparr>contents := (contents sampleWorld)([''proj'', ''app'', ''out'', ''sprite.svg''] \<mapsto> ''<svg></svg>''),
        directories := directories sampleWorld \<union> {[''proj'', ''app''], [''proj'', ''app'', ''out'']}\<rparr>"


section \<open>Properties of the identifier derivation\<close>

lemma split_on_not_Nil: "split_on d s \<noteq> []"
  by (induction s) (auto split: list.splits)

lemma split_on_no_sep: "d \<notin> set s \<Longrightarrow> split_on d s = [s]"
  by (induction s) auto

lemma split_on_append: "d \<notin> set a \<Longrightarrow> split_on d (a @ d # b) = a # split_on d b"
  by (induction a) (auto split: list.splits simp: split_on_not_Nil)

text \<open>Splitting undoes joining when no piece holds the separator.\<close>

lemma split_on_joinWith:
  "segs \<noteq> [] \<Longrightarrow> \<forall>s\<in>set segs. d \<notin> set s \<Longrightarrow> split_on d (joinWith [d] segs) = segs"
proof (induction "[d]" segs rule: joinWith.induct)
  case 1
  then show ?case by simp
next
  case (2 x)
  then show ?case by (simp add: split_on_no_sep)
next
  case (3 x y ys)
  then show ?case by (simp add: split_on_append)
qed

lemma joinWith_Nil: "joinWith [] xs = concat xs"
  by (induction "[] :: string" xs rule: joinWith.induct) auto

lemma stripSvgExt_append: "stripSvgExt (x @ ''.svg'') = x"
  by (simp add: stripSvgExt_def endsWith_def)

lemma baseName_no_slash: "CHR ''/'' \<notin> set file \<Longrightarrow> baseName file = file"
  by (simp add: baseName_def split_on_no_sep)

lemmas ident_eval = iconName_def spec_iconName_def fileNameToCamelCase_def stripSvgExt_def
  endsWith_def capitalize_def toUpperCase_def baseName_def

text \<open>
  Claim C3, as amended. The identifier of a discovered file is computed from its whole
  path relative to the input directory, directories included, with a final \<open>.svg\<close>
  removed: the path is split at the hyphens, the first character of each piece is put in
  upper case and the pieces are concatenated. For a file directly in the input directory
  (no slash in the path) this is the derivation from the base name that the
  specification describes.
\<close>

theorem iconName_of_relative_path:
  assumes "segs \<noteq> []" and "\<forall>s\<in>set segs. CHR ''-'' \<notin> set s"
  shows "iconName (joinWith ''-'' segs @ ''.svg'') = concat (map capitalize segs)
       \<and> (CHR ''/'' \<notin> set (joinWith ''-'' segs) \<longrightarrow>
            spec_iconName (joinWith ''-'' segs @ ''.svg'') = iconName (joinWith ''-'' segs @ ''.svg''))"
  using assms
  by (simp add: iconName_def spec_iconName_def fileNameToCamelCase_def stripSvgExt_append
      split_on_joinWith joinWith_Nil baseName_no_slash)

theorem iconName_of_relative_path_witness:
  "iconName ''arrow-right.svg'' = ''ArrowRight''
   \<and> spec_iconName ''arrow-right.svg'' = ''ArrowRight''
   \<and> iconName ''sub/arrow-right.svg'' = ''Sub/arrowRight''"
  using iconName_of_relative_path [of "[''arrow'', ''right'']"]
    iconName_of_relative_path [of "[''sub/arrow'', ''right'']"]
  by (simp add: capitalize_def toUpperCase_def)

text \<open>
  Claim C3 as stated fails for a file in a subdirectory: the directory stays in the
  identifier, and only the first character of the path is put in upper case.
\<close>

theorem iconName_nested_counterexample:
  "iconName ''sub/arrow-right.svg'' = ''Sub/arrowRight''
   \<and> spec_iconName ''sub/arrow-right.svg'' = ''ArrowRight''
   \<and> iconName ''sub/arrow-right.svg'' \<noteq> spec_iconName ''sub/arrow-right.svg''"
  by (simp add: ident_eval)


section \<open>Properties of the sprite text and of the fragments\<close>

lemma joinWith_newline_lines:
  "joinWith sep (xs @ [y]) = concat (map (\<lambda>x. x @ sep) xs) @ y"
  by (induction sep xs rule: joinWith.induct) auto

lemma filterBoolean_conv:
  "filterBoolean symbols = map the (filter (\<lambda>x. x \<noteq> None \<and> x \<noteq> Some []) symbols)"
  by (induction symbols rule: filterBoolean.induct) auto

text \<open>
  Claim C8. The sprite text is, line by line: the XML declaration, the open tag of the root
  element with the two namespace declarations and width and height 0, the open tag of the
  definitions container, the fragments that survive \<open>filter(Boolean)\<close> in the order of
  the task results, the close tag of the container and the close tag of the root; the
  lines are joined by line feeds, with none after the last.
\<close>

theorem spriteOutput_layout:
  \<open>spriteOutput symbols =
     ''<?xml version="1.0" encoding="UTF-8"?>'' @ newline
     @ ''<svg xmlns="http://www.w3.org/2000/svg" xmlns:xlink="http://www.w3.org/1999/xlink" width="0" height="0">'' @ newline
     @ ''<defs>'' @ newline
     @ concat (map (\<lambda>fragment. fragment @ newline)
                (map the (filter (\<lambda>x. x \<noteq> None \<and> x \<noteq> Some []) symbols)))
     @ ''</defs>'' @ newline
     @ ''</svg>''\<close>
proof -
  have "spriteOutput symbols =
      joinWith newline (([xmlDeclaration, svgOpenTag, ''<defs>''] @ filterBoolean symbols @ [''</defs>'']) @ [''</svg>''])"
    by (simp add: spriteOutput_def)
  also have "\<dots> = concat (map (\<lambda>x. x @ newline) ([xmlDeclaration, svgOpenTag, ''<defs>''] @ filterBoolean symbols @ [''</defs>''])) @ ''</svg>''"
    by (rule joinWith_newline_lines)
  finally show ?thesis
    by (simp add: xmlDeclaration_def svgOpenTag_def filterBoolean_conv)
qed

theorem spriteOutput_layout_witness:
  \<open>spriteOutput [Some ''<symbol id="A"></symbol>'', None, Some ''<symbol id="B"></symbol>''] =
     ''<?xml version="1.0" encoding="UTF-8"?>\<newline><svg xmlns="http://www.w3.org/2000/svg" xmlns:xlink="http://www.w3.org/1999/xlink" width="0" height="0">\<newline><defs>\<newline><symbol id="A"></symbol>\<newline><symbol id="B"></symbol>\<newline></defs>\<newline></svg>''\<close>
  using spriteOutput_layout [of \<open>[Some ''<symbol id="A"></symbol>'', None, Some ''<symbol id="B"></symbol>'']\<close>]
  by (simp add: newline_def)









text \<open>The quoting of a plain value.\<close>

lemma replaceEscape_other:
  "x \<noteq> CHR 0x5C \<Longrightarrow> replaceEscape a r (x # s) = x # replaceEscape a r s"
  by (cases s) simp_all












lemma quoteAttribute_not_null: "quoteAttribute v \<noteq> ''null''"
proof -
  have "\<exists>s. quoteAttribute v = CHR 0x22 # s"
    by (simp add: quoteAttribute_def jsonStringify_def replaceEscape_other)
  then show ?thesis by auto
qed














lemmas markup_eval = toSymbol_def setAttribute_def removeAttribute_def toString_def rawAttrs_def
  attrText_def quoteAttribute_def jsonStringify_def jsonEscape_def replaceQuot_def hexDigit_def
  toLowerCase_def trim_def isSpace_def arrowElement_def Let_def




section \<open>Properties of the writer and of the run without icons\<close>

text \<open>
  Claim C4. When the file can be read and its text equals the candidate, the writer
  returns the world as it was: nothing is written and nothing is printed. In every other
  case (the text differs, or the read fails for whatever reason) the writer does what
  \<open>writeFile\<close> followed by the notification does; a write that succeeds replaces the
  whole text of the file and is recorded once.
\<close>

theorem writeIfChanged_cases:
  "(readFile w filepath = Inr newContent \<longrightarrow>
      writeIfChanged w filepath newContent message = Inr w)
   \<and> (readFile w filepath \<noteq> Inr newContent \<longrightarrow>
      writeIfChanged w filepath newContent message =
        (case writeFile w filepath newContent of
           Inl e \<Rightarrow> Inl e
         | Inr w' \<Rightarrow> Inr (consoleLog message w')))
   \<and> (\<forall>w'. writeFile w filepath newContent = Inr w' \<longrightarrow>
         contents w' (resolve (processCwd w) filepath) = Some newContent
         \<and> writes w' = writes w @ [(resolve (processCwd w) filepath, newContent)])"
  by (auto simp: writeIfChanged_def writeFile_def Let_def split: sum.splits if_splits)

lemmas path_eval = resolve_def isAbsolute_def segments_def path_join_def path_normalize_def
  path_relative_def endsWith_def process_cwd_def

lemmas fs_eval = readFile_def writeFile_def mkdir_def isDir_def pathExists_def consoleLog_def
  sampleWorld_def Let_def

theorem writeIfChanged_cases_witness:
  "writeIfChanged sampleWorld ''icons/broken.svg'' ''<p>no icon</p>'' (GeneratedTypes ''t'')
     = Inr sampleWorld
   \<and> map_sum id writes
        (writeIfChanged sampleWorld ''icons/close.svg'' ''<svg></svg>'' (GeneratedTypes ''t''))
     = Inr [([''proj'', ''icons'', ''close.svg''], ''<svg></svg>'')]
   \<and> map_sum id console
        (writeIfChanged sampleWorld ''icons/close.svg'' ''<svg></svg>'' (GeneratedTypes ''t''))
     = Inr [GeneratedTypes ''t'']"
proof -
  have same: "readFile sampleWorld ''icons/broken.svg'' = Inr ''<p>no icon</p>''"
    by (simp add: fs_eval path_eval)
  have absent: "readFile sampleWorld ''icons/close.svg'' \<noteq> Inr ''<svg></svg>''"
    by (simp add: fs_eval path_eval)
  have written: "map_sum id writes (writeFile sampleWorld ''icons/close.svg'' ''<svg></svg>'')
        = Inr [([''proj'', ''icons'', ''close.svg''], ''<svg></svg>'')]"
       "map_sum id console (writeFile sampleWorld ''icons/close.svg'' ''<svg></svg>'') = Inr []"
    by (simp_all add: fs_eval path_eval)
  have eq: "writeIfChanged sampleWorld ''icons/close.svg'' ''<svg></svg>'' (GeneratedTypes ''t'')
      = (case writeFile sampleWorld ''icons/close.svg'' ''<svg></svg>'' of
           Inl e \<Rightarrow> Inl e
         | Inr w' \<Rightarrow> Inr (consoleLog (GeneratedTypes ''t'') w'))"
    using writeIfChanged_cases [of sampleWorld "''icons/close.svg''" "''<svg></svg>''" "GeneratedTypes ''t''"]
      absent by blast
  have noop: "writeIfChanged sampleWorld ''icons/broken.svg'' ''<p>no icon</p>'' (GeneratedTypes ''t'')
      = Inr sampleWorld"
    using writeIfChanged_cases [of sampleWorld "''icons/broken.svg''" "''<p>no icon</p>''" "GeneratedTypes ''t''"]
      same by blast
  obtain w' where w': "writeFile sampleWorld ''icons/close.svg'' ''<svg></svg>'' = Inr w'"
    using written(1) by (cases "writeFile sampleWorld ''icons/close.svg'' ''<svg></svg>''") auto
  show ?thesis
    using written by (simp add: eq noop w' consoleLog_def)
qed

text \<open>
  Claim C7. When the discovery returns no file, the run ends successfully after printing
  the warning: the files, the directories and the log of writes are what they were.
\<close>

theorem no_files_no_effects:
  assumes "glob_sync h w (inputDir props) = []"
  shows "\<exists>w'. generateIcons h order w props = Inr w'
           \<and> contents w' = contents w \<and> directories w' = directories w
           \<and> writes w' = writes w
           \<and> console w' = console w @
                [NoSvgFiles (path_relative (processCwd w)
                   (case cwd props of None \<Rightarrow> process_cwd w | Some c \<Rightarrow> c) (inputDir props))]"
  using assms by (simp add: generateIcons_def consoleLog_def)

theorem no_files_no_effects_witness:
  "map_sum id writes (generateIcons sampleHost [] sampleWorld (sampleProps\<lparr>inputDir := ''empty''\<rparr>))
     = Inr []
   \<and> map_sum id console (generateIcons sampleHost [] sampleWorld (sampleProps\<lparr>inputDir := ''empty''\<rparr>))
     = Inr [NoSvgFiles ''empty'']"
proof -
  have none: "glob_sync sampleHost sampleWorld (inputDir (sampleProps\<lparr>inputDir := ''empty''\<rparr>)) = []"
    by (simp add: sampleHost_def sampleGlob_def sampleProps_def sampleWorld_def path_eval)
  have rel: "path_relative [''proj''] ''/proj'' ''empty'' = ''empty''"
    by (simp add: path_eval)
  from no_files_no_effects [OF none, of "[]"]
  obtain w' where "generateIcons sampleHost [] sampleWorld (sampleProps\<lparr>inputDir := ''empty''\<rparr>) = Inr w'"
    "writes w' = writes sampleWorld"
    "console w' = console sampleWorld @
                [NoSvgFiles (path_relative (processCwd sampleWorld)
                   (case cwd (sampleProps\<lparr>inputDir := ''empty''\<rparr>) of None \<Rightarrow> process_cwd sampleWorld | Some c \<Rightarrow> c) (inputDir (sampleProps\<lparr>inputDir := ''empty''\<rparr>)))]"
    by blast
  then show ?thesis
    using rel by (simp add: sampleWorld_def sampleProps_def process_cwd_def)
qed


section \<open>Effects of the file operations\<close>

lemma readFile_Inr_iff:
  "readFile w p = Inr text \<longleftrightarrow>
     resolve (processCwd w) p \<notin> denied w \<and> \<not> isDir w (resolve (processCwd w) p)
     \<and> contents w (resolve (processCwd w) p) = Some text"
  by (auto simp: readFile_def Let_def split: option.splits)

lemma writeFile_Inr:
  assumes "writeFile w p text = Inr w'"
  shows "w' = w\<lparr>contents := (contents w)(resolve (processCwd w) p \<mapsto> text),
                 writes := writes w @ [(resolve (processCwd w) p, text)]\<rparr>"
    and "resolve (processCwd w) p \<notin> denied w"
    and "\<not> isDir w (resolve (processCwd w) p)"
  using assms by (auto simp: writeFile_def Let_def split: if_splits)

lemma writeFile_succeeds:
  assumes "resolve (processCwd w) p \<notin> denied w"
    and "\<not> isDir w (resolve (processCwd w) p)"
    and "isDir w (butlast (resolve (processCwd w) p))"
  shows "\<exists>w'. writeFile w p text = Inr w'"
  using assms by (simp add: writeFile_def Let_def)

lemma mkdir_Inr:
  assumes "mkdir w p = Inr w'"
  shows "w' = w\<lparr>directories := directories w \<union> set (prefixes (resolve (processCwd w) p))\<rparr>"
    and "\<forall>q\<in>set (prefixes (resolve (processCwd w) p)). contents w q = None"
    and "p \<noteq> []"
  using assms by (auto simp: mkdir_def Let_def split: if_splits)

text \<open>What a successful \<open>writeIfChanged\<close> leaves behind.\<close>

lemma writeIfChanged_Inr:
  assumes "writeIfChanged w p text m = Inr w'"
  shows "processCwd w' = processCwd w"
    and "directories w' = directories w"
    and "denied w' = denied w"
    and "contents w' = (contents w)(resolve (processCwd w) p \<mapsto> text)"
    and "resolve (processCwd w) p \<notin> denied w"
    and "\<not> isDir w (resolve (processCwd w) p)"
    and "writes w' = writes w \<or> writes w' = writes w @ [(resolve (processCwd w) p, text)]"
    and "console w' = console w \<or> console w' = console w @ [m]"
proof -
  consider (same) "readFile w p = Inr text" "w' = w"
    | (written) w1 where "writeFile w p text = Inr w1" "w' = consoleLog m w1"
    using assms
    by (auto simp: writeIfChanged_def Let_def split: sum.splits if_splits)
  then have "processCwd w' = processCwd w \<and> directories w' = directories w \<and> denied w' = denied w
    \<and> contents w' = (contents w)(resolve (processCwd w) p \<mapsto> text)
    \<and> resolve (processCwd w) p \<notin> denied w \<and> \<not> isDir w (resolve (processCwd w) p)
    \<and> (writes w' = writes w \<or> writes w' = writes w @ [(resolve (processCwd w) p, text)])
    \<and> (console w' = console w \<or> console w' = console w @ [m])"
  proof cases
    case same
    then show ?thesis
      by (auto simp: readFile_Inr_iff fun_upd_idem)
  next
    case written
    from writeFile_Inr [OF written(1)] written(2) show ?thesis
      by (simp add: consoleLog_def)
  qed
  then show "processCwd w' = processCwd w"
    and "directories w' = directories w"
    and "denied w' = denied w"
    and "contents w' = (contents w)(resolve (processCwd w) p \<mapsto> text)"
    and "resolve (processCwd w) p \<notin> denied w"
    and "\<not> isDir w (resolve (processCwd w) p)"
    and "writes w' = writes w \<or> writes w' = writes w @ [(resolve (processCwd w) p, text)]"
    and "console w' = console w \<or> console w' = console w @ [m]"
    by simp_all
qed

lemma writeIfChanged_same:
  "readFile w p = Inr text \<Longrightarrow> writeIfChanged w p text m = Inr w"
  by (simp add: writeIfChanged_def)

lemma writeIfChanged_succeeds:
  assumes "resolve (processCwd w) p \<notin> denied w"
    and "\<not> isDir w (resolve (processCwd w) p)"
    and "isDir w (butlast (resolve (processCwd w) p))"
  shows "\<exists>w'. writeIfChanged w p text m = Inr w'"
proof -
  from writeFile_succeeds [OF assms] obtain w1 where "writeFile w p text = Inr w1" ..
  then show ?thesis
    by (auto simp: writeIfChanged_def Let_def split: sum.splits)
qed

text \<open>The tasks.\<close>

lemma promiseAll_map_Inr_id: "promiseAll (map Inr xs) = Inr xs"
  by (induction xs) auto

lemma promiseAll_Inr_D: "promiseAll rs = Inr xs \<Longrightarrow> rs = map Inr xs"
proof (induction rs arbitrary: xs rule: promiseAll.induct)
  case 1
  then show ?case by auto
next
  case (2 e rs)
  then show ?case by auto
next
  case (3 x rs)
  then show ?case by (auto split: sum.splits)
qed

lemma promiseAll_Inr_iff: "promiseAll rs = Inr xs \<longleftrightarrow> rs = map Inr xs"
  using promiseAll_Inr_D promiseAll_map_Inr_id by blast


section \<open>Skipped files\<close>

lemma trim_not_blank: "\<not> isSpace c \<Longrightarrow> trim (c # s) \<noteq> []"
  by (auto simp: trim_def dropWhile_eq_Nil_conv)

lemma fragment_not_empty: "trim (toString e) \<noteq> []"
  by (simp add: toString_def Let_def trim_not_blank isSpace_def)

lemma filterBoolean_map_Some:
  "\<forall>x\<in>set xs. x \<noteq> [] \<Longrightarrow> filterBoolean (map Some xs) = xs"
  by (induction xs) auto

lemma filterBoolean_append:
  "filterBoolean (xs @ ys) = filterBoolean xs @ filterBoolean ys"
  by (induction xs rule: filterBoolean.induct) auto

lemma filter_eq_single:
  "distinct xs \<Longrightarrow> x \<in> set xs \<Longrightarrow> filter (\<lambda>i. i = x) xs = [x]"
  by (induction xs) (auto simp: filter_empty_conv)

lemma generateSvgSprite_Inr:
  assumes "generateSvgSprite h order w fs inDir outputPath rel = Inr w'"
  obtains symbols where "map (symbolTask h w inDir) fs = map Inr symbols"
    and "writeIfChanged (w\<lparr>console := console w @ skipWarnings order fs symbols\<rparr>)
           outputPath (spriteOutput symbols) (GeneratedSprite rel) = Inr w'"
  using assms
  by (auto simp: generateSvgSprite_def Let_def promiseAll_Inr_iff split: sum.splits)

text \<open>
  Claim C6. The discovered files are \<open>xs @ d # ys\<close>; every file of \<open>xs\<close> and \<open>ys\<close> can be
  read and has a root vector element, \<open>d\<close> can be read and has none; the tasks complete
  in any order; the output file can be written. Then \<open>generateSvgSprite\<close> returns without
  an error, the sprite holds exactly the fragments of the other files, one less than
  there are files, in their order, and the warning for \<open>d\<close> is printed.
\<close>

theorem skip_isolation:
  assumes good: "\<forall>f\<in>set (xs @ ys). \<exists>input.
                   readFile w (path_join [inDir, f]) = Inr input \<and> parse_svg h input = Some (svgOf f)"
    and bad: "\<exists>input. readFile w (path_join [inDir, d]) = Inr input \<and> parse_svg h input = None"
    and order: "distinct order" "set order = {..<length (xs @ d # ys)}"
    and writable: "resolve (processCwd w) outputPath \<notin> denied w"
      "\<not> isDir w (resolve (processCwd w) outputPath)"
      "isDir w (butlast (resolve (processCwd w) outputPath))"
  shows "\<exists>w' fragments rest.
           generateSvgSprite h order w (xs @ d # ys) inDir outputPath rel = Inr w'
         \<and> fragments = map (\<lambda>f. trim (toString (toSymbol (iconName f) (svgOf f)))) (xs @ ys)
         \<and> length fragments = length (xs @ d # ys) - 1
         \<and> contents w' (resolve (processCwd w) outputPath) =
             Some (joinWith newline
                    ([xmlDeclaration, svgOpenTag, ''<defs>''] @ fragments @ [''</defs>'', ''</svg>'']))
         \<and> console w' = console w @ [NoSvgTag d] @ rest
         \<and> set rest \<subseteq> {GeneratedSprite rel}"
proof -
  let ?frag = "\<lambda>f. trim (toString (toSymbol (iconName f) (svgOf f)))"
  let ?files = "xs @ d # ys"
  let ?symbols = "map (\<lambda>f. Some (?frag f)) xs @ None # map (\<lambda>f. Some (?frag f)) ys"
  have task_good: "symbolTask h w inDir f = Inr (Some (?frag f))" if "f \<in> set (xs @ ys)" for f
  proof -
    from good that obtain input
      where "readFile w (path_join [inDir, f]) = Inr input" "parse_svg h input = Some (svgOf f)"
      by blast
    then show ?thesis by (simp add: symbolTask_def symbolOf_def)
  qed
  have task_bad: "symbolTask h w inDir d = Inr None"
  proof -
    from bad obtain input
      where "readFile w (path_join [inDir, d]) = Inr input" "parse_svg h input = None"
      by blast
    then show ?thesis by (simp add: symbolTask_def symbolOf_def)
  qed
  have tasks: "promiseAll (map (symbolTask h w inDir) ?files) = Inr ?symbols"
    using task_good task_bad by (simp add: promiseAll_Inr_iff)
  have frags: "filterBoolean ?symbols = map ?frag (xs @ ys)"
    using filterBoolean_map_Some [of "map ?frag xs"] filterBoolean_map_Some [of "map ?frag ys"]
    by (simp add: filterBoolean_append fragment_not_empty comp_def)
  have none_at: "i < length ?files \<and> ?symbols ! i = None \<longleftrightarrow> i = length xs" for i
    by (auto simp: nth_append nth_Cons' )
  have "filter (\<lambda>i. i < length ?files \<and> ?symbols ! i = None) order = [length xs]"
    using order filter_eq_single [of order "length xs"]
    by (simp only: none_at) auto
  then have warn: "skipWarnings order ?files ?symbols = [NoSvgTag d]"
    by (simp add: skipWarnings_def)
  let ?w0 = "w\<lparr>console := console w @ [NoSvgTag d]\<rparr>"
  have run: "generateSvgSprite h order w ?files inDir outputPath rel =
      writeIfChanged ?w0 outputPath (spriteOutput ?symbols) (GeneratedSprite rel)"
    by (simp only: generateSvgSprite_def tasks warn Let_def sum.case)
  from writable have "\<exists>w'. writeIfChanged ?w0 outputPath (spriteOutput ?symbols) (GeneratedSprite rel) = Inr w'"
    by (intro writeIfChanged_succeeds) (simp_all add: isDir_def)
  then obtain w' where w': "writeIfChanged ?w0 outputPath (spriteOutput ?symbols) (GeneratedSprite rel) = Inr w'" ..
  from writeIfChanged_Inr(4,8) [OF w']
  have "contents w' (resolve (processCwd w) outputPath) = Some (spriteOutput ?symbols)"
    and "console w' = console w @ [NoSvgTag d] @ [] \<or> console w' = console w @ [NoSvgTag d] @ [GeneratedSprite rel]"
    by auto
  then show ?thesis
    using run w' frags by (auto simp: spriteOutput_def simp del: append.simps)
qed


lemma readFile_fewer_dirs:
  assumes "readFile (w\<lparr>directories := directories w \<union> D\<rparr>) p = Inr text"
  shows "readFile w p = Inr text"
proof -
  from assms have "resolve (processCwd w) p \<notin> denied w"
    and "\<not> isDir (w\<lparr>directories := directories w \<union> D\<rparr>) (resolve (processCwd w) p)"
    and "contents w (resolve (processCwd w) p) = Some text"
    by (simp_all add: readFile_Inr_iff)
  then show ?thesis
    by (simp add: readFile_Inr_iff isDir_def)
qed

lemma symbolTask_fewer_dirs:
  assumes "symbolTask h (w\<lparr>directories := directories w \<union> D\<rparr>) inDir f = Inr x"
  shows "symbolTask h w inDir f = Inr x"
proof (cases "readFile (w\<lparr>directories := directories w \<union> D\<rparr>) (path_join [inDir, f])")
  case (Inl e)
  with assms show ?thesis by (simp add: symbolTask_def)
next
  case (Inr input)
  with assms readFile_fewer_dirs [OF Inr] show ?thesis by (simp add: symbolTask_def)
qed

lemma symbolTasks_fewer_dirs:
  assumes "map (symbolTask h (w\<lparr>directories := directories w \<union> D\<rparr>) inDir) fs = map Inr symbols"
  shows "map (symbolTask h w inDir) fs = map Inr symbols"
  using assms
proof (induction fs arbitrary: symbols)
  case Nil
  then show ?case by simp
next
  case (Cons f fs)
  then obtain x xs where symbols: "symbols = x # xs"
    by (cases symbols) simp_all
  with Cons.prems have head: "symbolTask h (w\<lparr>directories := directories w \<union> D\<rparr>) inDir f = Inr x"
    and tail: "map (symbolTask h (w\<lparr>directories := directories w \<union> D\<rparr>) inDir) fs = map Inr xs"
    by simp_all
  from symbolTask_fewer_dirs [OF head] Cons.IH [OF tail] symbols
  show ?case by simp
qed

text \<open>The steps of a run that found files and returned.\<close>

lemma generateIcons_Inr:
  assumes "generateIcons h order w props = Inr w'"
    and "glob_sync h w (inputDir props) \<noteq> []"
  obtains wa wb where
    "mkdir w (path_relative (processCwd w)
        (case cwd props of None \<Rightarrow> process_cwd w | Some c \<Rightarrow> c) (outputDir props)) = Inr wa"
    "generateSvgSprite h order wa (glob_sync h w (inputDir props)) (inputDir props)
        (path_join [outputDir props, case fileName props of None \<Rightarrow> ''sprite.svg'' | Some f \<Rightarrow> f])
        (path_relative (processCwd w)
          (case cwd props of None \<Rightarrow> process_cwd w | Some c \<Rightarrow> c) (outputDir props)) = Inr wb"
    "if (case withTypes props of None \<Rightarrow> False | Some b \<Rightarrow> b)
     then generateTypes wb (map iconName (glob_sync h w (inputDir props)))
            (path_join [outputDir props, ''types.ts'']) = Inr w'
     else w' = wb"
proof -
  let ?rel = "path_relative (processCwd w)
        (case cwd props of None \<Rightarrow> process_cwd w | Some c \<Rightarrow> c) (outputDir props)"
  let ?files = "glob_sync h w (inputDir props)"
  let ?sprite = "path_join [outputDir props, case fileName props of None \<Rightarrow> ''sprite.svg'' | Some f \<Rightarrow> f]"
  from assms have run: "(case mkdir w ?rel of
              Inl e \<Rightarrow> Inl e
            | Inr w1 \<Rightarrow>
                (case generateSvgSprite h order w1 ?files (inputDir props) ?sprite ?rel of
                   Inl e \<Rightarrow> Inl e
                 | Inr w2 \<Rightarrow>
                     (if (case withTypes props of None \<Rightarrow> False | Some b \<Rightarrow> b) then
                        generateTypes w2 (map iconName ?files)
                          (path_join [outputDir props, ''types.ts''])
                      else Inr w2))) = Inr w'"
    by (simp add: generateIcons_def Let_def)
  then obtain wa where wa: "mkdir w ?rel = Inr wa"
    by (cases "mkdir w ?rel") simp_all
  with run obtain wb where wb: "generateSvgSprite h order wa ?files (inputDir props) ?sprite ?rel = Inr wb"
    by (cases "generateSvgSprite h order wa ?files (inputDir props) ?sprite ?rel") simp_all
  from run wa wb have "if (case withTypes props of None \<Rightarrow> False | Some b \<Rightarrow> b)
     then generateTypes wb (map iconName ?files) (path_join [outputDir props, ''types.ts'']) = Inr w'
     else w' = wb"
    by (simp split: if_splits)
  with wa wb show ?thesis by (rule that)
qed


text \<open>
  Claim C10. After a run that found files and returned, with the manifest enabled, the
  file \<open>types.ts\<close> in the output directory holds the manifest of the discovered files,
  whatever the \<open>fileName\<close> option is; the option names the sprite only, which is at
  \<open>fileName\<close> (or \<open>sprite.svg\<close>) in the output directory unless the manifest was written
  over it; no other file has changed.
\<close>

theorem output_paths:
  assumes run: "generateIcons h order w props = Inr w'"
    and found: "glob_sync h w (inputDir props) \<noteq> []"
  shows "let spritePath = resolve (processCwd w)
                (path_join [outputDir props,
                            case fileName props of None \<Rightarrow> ''sprite.svg'' | Some f \<Rightarrow> f]);
             typesPath = resolve (processCwd w) (path_join [outputDir props, ''types.ts''])
         in (withTypes props = Some True \<longrightarrow>
               contents w' typesPath =
                 Some (typesOutput (map iconName (glob_sync h w (inputDir props))))
               \<and> (\<forall>q. q \<noteq> spritePath \<and> q \<noteq> typesPath \<longrightarrow> contents w' q = contents w q))
          \<and> (withTypes props \<noteq> Some True \<longrightarrow>
               (\<forall>q. q \<noteq> spritePath \<longrightarrow> contents w' q = contents w q))
          \<and> (withTypes props \<noteq> Some True \<or> spritePath \<noteq> typesPath \<longrightarrow>
               (\<exists>symbols.
                  promiseAll (map (symbolTask h w (inputDir props)) (glob_sync h w (inputDir props)))
                    = Inr symbols
                  \<and> contents w' spritePath = Some (spriteOutput symbols)))"
proof -
  let ?rel = "path_relative (processCwd w)
        (case cwd props of None \<Rightarrow> process_cwd w | Some c \<Rightarrow> c) (outputDir props)"
  let ?files = "glob_sync h w (inputDir props)"
  let ?spriteFile = "path_join [outputDir props, case fileName props of None \<Rightarrow> ''sprite.svg'' | Some f \<Rightarrow> f]"
  let ?typesFile = "path_join [outputDir props, ''types.ts'']"
  let ?S = "resolve (processCwd w) ?spriteFile"
  let ?T = "resolve (processCwd w) ?typesFile"
  let ?D = "set (prefixes (resolve (processCwd w) ?rel))"
  from generateIcons_Inr [OF run found] obtain wa wb
    where wa: "mkdir w ?rel = Inr wa"
      and wb: "generateSvgSprite h order wa ?files (inputDir props) ?spriteFile ?rel = Inr wb"
      and w': "if (case withTypes props of None \<Rightarrow> False | Some b \<Rightarrow> b)
               then generateTypes wb (map iconName ?files) ?typesFile = Inr w' else w' = wb"
    by blast
  have wa_eq: "wa = w\<lparr>directories := directories w \<union> ?D\<rparr>"
    using mkdir_Inr(1) [OF wa] .
  from generateSvgSprite_Inr [OF wb] obtain symbols
    where tasks: "map (symbolTask h wa (inputDir props)) ?files = map Inr symbols"
      and sprite: "writeIfChanged (wa\<lparr>console := console wa @ skipWarnings order ?files symbols\<rparr>)
             ?spriteFile (spriteOutput symbols) (GeneratedSprite ?rel) = Inr wb"
    by blast
  have tasks_w: "promiseAll (map (symbolTask h w (inputDir props)) ?files) = Inr symbols"
    using tasks symbolTasks_fewer_dirs [of h w ?D "inputDir props" ?files symbols]
    by (simp add: wa_eq promiseAll_Inr_iff)
  have wb_cwd: "processCwd wb = processCwd w"
    and wb_contents: "contents wb = (contents w)(?S \<mapsto> spriteOutput symbols)"
    using writeIfChanged_Inr(1,4) [OF sprite] by (simp_all add: wa_eq)
  show ?thesis
  proof (cases "withTypes props = Some True")
    case True
    with w' have "generateTypes wb (map iconName ?files) ?typesFile = Inr w'"
      by simp
    then have "writeIfChanged wb ?typesFile (typesOutput (map iconName ?files)) (GeneratedTypes ?typesFile) = Inr w'"
      by (simp add: generateTypes_def Let_def)
    from writeIfChanged_Inr(4) [OF this]
    have "contents w' = (contents w)(?S \<mapsto> spriteOutput symbols, ?T \<mapsto> typesOutput (map iconName ?files))"
      by (simp add: wb_cwd wb_contents)
    with True tasks_w show ?thesis
      by (simp add: Let_def)
  next
    case False
    then have "\<not> (case withTypes props of None \<Rightarrow> False | Some b \<Rightarrow> b)"
      by (cases "withTypes props") auto
    with w' have "w' = wb" by simp
    with False tasks_w wb_contents show ?thesis
      by (simp add: Let_def)
  qed
qed


section \<open>Running the pipeline again\<close>

lemma readFile_same_fs:
  assumes "processCwd w' = processCwd w" and "denied w' = denied w"
    and "directories w' = directories w"
    and "contents w' (resolve (processCwd w) p) = contents w (resolve (processCwd w) p)"
  shows "readFile w' p = readFile w p"
  using assms by (simp add: readFile_def Let_def isDir_def)

lemma map_eq_map_Inr_D:
  "map g fs = map Inr xs \<Longrightarrow> f \<in> set fs \<Longrightarrow> \<exists>x. g f = Inr x"
proof (induction fs arbitrary: xs)
  case Nil
  then show ?case by simp
next
  case (Cons a fs)
  then show ?case by (cases xs) auto
qed

lemma mkdir_again:
  assumes "p \<noteq> []"
    and "set (prefixes (resolve (processCwd w) p)) \<subseteq> directories w"
    and "\<forall>q\<in>set (prefixes (resolve (processCwd w) p)). contents w q = None"
  shows "mkdir w p = Inr w"
proof -
  have "directories w \<union> set (prefixes (resolve (processCwd w) p)) = directories w"
    using assms(2) by blast
  moreover have "\<not> (\<exists>q\<in>set (prefixes (resolve (processCwd w) p)). \<not> isDir w q \<and> q \<in> denied w)"
    using assms(2) by (auto simp: isDir_def)
  moreover have "\<not> (\<exists>q\<in>set (prefixes (resolve (processCwd w) p)). contents w q \<noteq> None)"
    using assms(3) by simp
  ultimately show ?thesis
    using assms(1) by (simp add: mkdir_def Let_def)
qed


text \<open>A second run on the world the first run left finds both files as it wrote them.\<close>

lemma second_run_noop:
  assumes first: "generateIcons h order w props = Inr w1"
    and same_files: "glob_sync h w1 (inputDir props) = glob_sync h w (inputDir props)"
    and same_texts: "\<forall>f\<in>set (glob_sync h w (inputDir props)).
          contents w1 (resolve (processCwd w) (path_join [inputDir props, f]))
            = contents w (resolve (processCwd w) (path_join [inputDir props, f]))"
    and apart: "withTypes props = Some True \<longrightarrow>
          resolve (processCwd w)
            (path_join [outputDir props,
                        case fileName props of None \<Rightarrow> ''sprite.svg'' | Some f \<Rightarrow> f])
          \<noteq> resolve (processCwd w) (path_join [outputDir props, ''types.ts''])"
  shows "\<exists>w2. generateIcons h order' w1 props = Inr w2
           \<and> writes w2 = writes w1 \<and> contents w2 = contents w1
           \<and> directories w2 = directories w1"
proof (cases "glob_sync h w (inputDir props) = []")
  case True
  with same_files show ?thesis
    by (simp add: generateIcons_def consoleLog_def)
next
  case found: False
  let ?rel = "path_relative (processCwd w)
        (case cwd props of None \<Rightarrow> process_cwd w | Some c \<Rightarrow> c) (outputDir props)"
  let ?files = "glob_sync h w (inputDir props)"
  let ?spriteFile = "path_join [outputDir props, case fileName props of None \<Rightarrow> ''sprite.svg'' | Some f \<Rightarrow> f]"
  let ?typesFile = "path_join [outputDir props, ''types.ts'']"
  let ?S = "resolve (processCwd w) ?spriteFile"
  let ?T = "resolve (processCwd w) ?typesFile"
  let ?D = "set (prefixes (resolve (processCwd w) ?rel))"
  let ?names = "map iconName ?files"
  let ?typed = "case withTypes props of None \<Rightarrow> False | Some b \<Rightarrow> b"
  from generateIcons_Inr [OF first found] obtain wa wb
    where wa: "mkdir w ?rel = Inr wa"
      and wb: "generateSvgSprite h order wa ?files (inputDir props) ?spriteFile ?rel = Inr wb"
      and w1: "if ?typed then generateTypes wb ?names ?typesFile = Inr w1 else w1 = wb"
    by blast
  have typed_iff: "?typed \<longleftrightarrow> withTypes props = Some True"
    by (cases "withTypes props") auto
  \<comment> \<open>the world after \<open>mkdir\<close>\<close>
  have wa_eq: "wa = w\<lparr>directories := directories w \<union> ?D\<rparr>"
    and no_file: "\<forall>q\<in>?D. contents w q = None"
    and rel: "?rel \<noteq> []"
    using mkdir_Inr [OF wa] by blast+
  have wa_fs: "processCwd wa = processCwd w" "denied wa = denied w" "contents wa = contents w"
    "directories wa = directories w \<union> ?D"
    by (simp_all add: wa_eq)
  \<comment> \<open>the world after the sprite\<close>
  from generateSvgSprite_Inr [OF wb] obtain symbols
    where tasks: "map (symbolTask h wa (inputDir props)) ?files = map Inr symbols"
      and sprite: "writeIfChanged (wa\<lparr>console := console wa @ skipWarnings order ?files symbols\<rparr>)
             ?spriteFile (spriteOutput symbols) (GeneratedSprite ?rel) = Inr wb"
    by blast
  have wb_fs: "processCwd wb = processCwd w" "denied wb = denied w"
    "directories wb = directories w \<union> ?D"
    "contents wb = (contents w)(?S \<mapsto> spriteOutput symbols)"
    using writeIfChanged_Inr(1,2,3,4) [OF sprite] by (simp_all add: wa_fs)
  have S_free: "?S \<notin> denied w" "?S \<noteq> []" "?S \<notin> directories w \<union> ?D"
    using writeIfChanged_Inr(5,6) [OF sprite] by (simp_all add: wa_fs isDir_def)
  \<comment> \<open>the world after the first run\<close>
  have w1_fs: "processCwd w1 = processCwd w \<and> denied w1 = denied w
      \<and> directories w1 = directories w \<union> ?D
      \<and> contents w1 ?S = Some (spriteOutput symbols)
      \<and> (\<forall>q\<in>?D. contents w1 q = None)
      \<and> (?typed \<longrightarrow> ?T \<notin> denied w \<and> ?T \<noteq> [] \<and> ?T \<notin> directories w \<union> ?D
             \<and> contents w1 ?T = Some (typesOutput ?names))"
  proof (cases ?typed)
    case True
    with w1 have "writeIfChanged wb ?typesFile (typesOutput ?names) (GeneratedTypes ?typesFile) = Inr w1"
      by (simp add: generateTypes_def Let_def)
    from writeIfChanged_Inr(1-6) [OF this]
    have "processCwd w1 = processCwd w" "denied w1 = denied w"
      "directories w1 = directories w \<union> ?D"
      "contents w1 = (contents w)(?S \<mapsto> spriteOutput symbols, ?T \<mapsto> typesOutput ?names)"
      "?T \<notin> denied w" "?T \<noteq> []" "?T \<notin> directories w \<union> ?D"
      by (simp_all add: wb_fs isDir_def)
    moreover have "?S \<noteq> ?T"
      using True apart typed_iff by simp
    ultimately show ?thesis
      using True S_free no_file by auto
  next
    case False
    with w1 have "w1 = wb" by simp
    with False wb_fs S_free no_file show ?thesis
      by auto
  qed
  then have w1_cwd: "processCwd w1 = processCwd w" and w1_denied: "denied w1 = denied w"
    and w1_dirs: "directories w1 = directories w \<union> ?D"
    and w1_S: "contents w1 ?S = Some (spriteOutput symbols)"
    and w1_no_file: "\<forall>q\<in>?D. contents w1 q = None"
    and w1_T: "?typed \<Longrightarrow> ?T \<notin> denied w \<and> ?T \<noteq> [] \<and> ?T \<notin> directories w \<union> ?D
             \<and> contents w1 ?T = Some (typesOutput ?names)"
    by blast+
  \<comment> \<open>the second run: \<open>mkdir\<close> changes nothing\<close>
  have rel1: "path_relative (processCwd w1)
        (case cwd props of None \<Rightarrow> process_cwd w1 | Some c \<Rightarrow> c) (outputDir props) = ?rel"
    by (simp add: w1_cwd process_cwd_def cong: option.case_cong)
  have mkdir1: "mkdir w1 ?rel = Inr w1"
    using rel w1_no_file by (intro mkdir_again) (simp_all add: w1_cwd w1_dirs)
  \<comment> \<open>the tasks read what they read before\<close>
  have "symbolTask h w1 (inputDir props) f = symbolTask h wa (inputDir props) f"
    if f: "f \<in> set ?files" for f
  proof -
    from map_eq_map_Inr_D [OF tasks f]
    obtain x where "symbolTask h wa (inputDir props) f = Inr x" ..
    have "readFile w1 (path_join [inputDir props, f]) = readFile wa (path_join [inputDir props, f])"
      using same_texts f
      by (intro readFile_same_fs) (simp_all add: w1_cwd w1_denied w1_dirs wa_fs)
    then show ?thesis
      by (simp add: symbolTask_def)
  qed
  then have "map (symbolTask h w1 (inputDir props)) ?files = map Inr symbols"
    using tasks by (simp cong: map_cong)
  then have tasks1: "promiseAll (map (symbolTask h w1 (inputDir props)) ?files) = Inr symbols"
    by (simp add: promiseAll_Inr_iff)
  \<comment> \<open>both files are found as they were written\<close>
  define w2 where "w2 = w1\<lparr>console := console w1 @ skipWarnings order' ?files symbols\<rparr>"
  have w2_fs: "processCwd w2 = processCwd w" "denied w2 = denied w"
    "directories w2 = directories w \<union> ?D" "contents w2 = contents w1" "writes w2 = writes w1"
    "directories w2 = directories w1"
    by (simp_all add: w2_def w1_cwd w1_denied w1_dirs)
  have "readFile w2 ?spriteFile = Inr (spriteOutput symbols)"
    using S_free w1_S by (simp add: readFile_Inr_iff w2_fs isDir_def)
  then have sprite2: "writeIfChanged w2 ?spriteFile (spriteOutput symbols) (GeneratedSprite ?rel) = Inr w2"
    by (rule writeIfChanged_same)
  have sprite_run: "generateSvgSprite h order' w1 ?files (inputDir props) ?spriteFile ?rel = Inr w2"
    using sprite2 by (simp add: generateSvgSprite_def tasks1 Let_def w2_def)
  have types_run: "generateTypes w2 ?names ?typesFile = Inr w2" if ?typed
  proof -
    have "readFile w2 ?typesFile = Inr (typesOutput ?names)"
      using w1_T [OF that] by (simp add: readFile_Inr_iff w2_fs isDir_def)
    then show ?thesis
      by (simp add: generateTypes_def Let_def writeIfChanged_same)
  qed
  have "generateIcons h order' w1 props = Inr w2"
    using found types_run
    by (simp add: generateIcons_def Let_def same_files rel1 mkdir1 sprite_run)
  then show ?thesis
    using w2_fs by simp
qed


section \<open>The order in which the tasks complete\<close>

lemma writeIfChanged_other:
  "readFile w p \<noteq> Inr text \<Longrightarrow>
     writeIfChanged w p text m =
       (case writeFile w p text of Inl e \<Rightarrow> Inl e | Inr w' \<Rightarrow> Inr (consoleLog m w'))"
  by (auto simp: writeIfChanged_def Let_def split: sum.splits)

text \<open>The writer does to the files what it does in any world with the same files.\<close>

lemma writeIfChanged_same_files:
  assumes fs: "processCwd v = processCwd w" "contents v = contents w"
      "directories v = directories w" "denied v = denied w" "writes v = writes w"
    and run: "writeIfChanged w p text m = Inr w'"
  shows "\<exists>v'. writeIfChanged v p text m = Inr v'
           \<and> processCwd v' = processCwd w' \<and> contents v' = contents w'
           \<and> directories v' = directories w' \<and> denied v' = denied w' \<and> writes v' = writes w'"
proof (cases "readFile w p = Inr text")
  have same_read: "readFile v p = readFile w p"
    by (rule readFile_same_fs) (simp_all add: fs)
  case True
  then have "readFile v p = Inr text"
    by (simp add: same_read)
  with True run fs show ?thesis
    by (simp add: writeIfChanged_same)
next
  have same_read: "readFile v p = readFile w p"
    by (rule readFile_same_fs) (simp_all add: fs)
  case False
  then have differs: "readFile v p \<noteq> Inr text"
    by (simp add: same_read)
  from False run obtain w0 where w0: "writeFile w p text = Inr w0" and w': "w' = consoleLog m w0"
    by (cases "writeFile w p text") (simp_all add: writeIfChanged_other)
  from w0 have ok: "resolve (processCwd w) p \<notin> denied w"
      "\<not> isDir w (resolve (processCwd w) p)" "isDir w (butlast (resolve (processCwd w) p))"
    by (simp_all add: writeFile_def Let_def split: if_splits)
  then have "writeFile v p text =
      Inr (v\<lparr>contents := (contents v)(resolve (processCwd v) p \<mapsto> text),
              writes := writes v @ [(resolve (processCwd v) p, text)]\<rparr>)"
    using fs by (simp add: writeFile_def Let_def isDir_def)
  with differs have "writeIfChanged v p text m =
      Inr (consoleLog m (v\<lparr>contents := (contents v)(resolve (processCwd v) p \<mapsto> text),
              writes := writes v @ [(resolve (processCwd v) p, text)]\<rparr>))"
    by (simp add: writeIfChanged_other)
  moreover from writeFile_Inr(1) [OF w0]
  have "w0 = w\<lparr>contents := (contents w)(resolve (processCwd w) p \<mapsto> text),
                 writes := writes w @ [(resolve (processCwd w) p, text)]\<rparr>" .
  ultimately show ?thesis
    using fs w' by (simp add: consoleLog_def)
qed

text \<open>A run that returns does so for every order in which its tasks complete, and
  leaves the same files, directories and log of writes.\<close>

lemma run_order_irrelevant:
  assumes run: "generateIcons h order w props = Inr w1"
  shows "\<exists>w1'. generateIcons h order' w props = Inr w1'
           \<and> contents w1' = contents w1 \<and> directories w1' = directories w1
           \<and> writes w1' = writes w1"
proof (cases "glob_sync h w (inputDir props) = []")
  case True
  with run show ?thesis
    by (simp add: generateIcons_def)
next
  case found: False
  let ?rel = "path_relative (processCwd w)
        (case cwd props of None \<Rightarrow> process_cwd w | Some c \<Rightarrow> c) (outputDir props)"
  let ?files = "glob_sync h w (inputDir props)"
  let ?spriteFile = "path_join [outputDir props, case fileName props of None \<Rightarrow> ''sprite.svg'' | Some f \<Rightarrow> f]"
  let ?typesFile = "path_join [outputDir props, ''types.ts'']"
  let ?names = "map iconName ?files"
  let ?typed = "case withTypes props of None \<Rightarrow> False | Some b \<Rightarrow> b"
  from generateIcons_Inr [OF run found] obtain wa wb
    where wa: "mkdir w ?rel = Inr wa"
      and wb: "generateSvgSprite h order wa ?files (inputDir props) ?spriteFile ?rel = Inr wb"
      and w1: "if ?typed then generateTypes wb ?names ?typesFile = Inr w1 else w1 = wb"
    by blast
  from generateSvgSprite_Inr [OF wb] obtain symbols
    where tasks: "map (symbolTask h wa (inputDir props)) ?files = map Inr symbols"
      and sprite: "writeIfChanged (wa\<lparr>console := console wa @ skipWarnings order ?files symbols\<rparr>)
             ?spriteFile (spriteOutput symbols) (GeneratedSprite ?rel) = Inr wb"
    by blast
  from writeIfChanged_same_files [OF _ _ _ _ _ sprite,
      of "wa\<lparr>console := console wa @ skipWarnings order' ?files symbols\<rparr>"]
  obtain vb where vb: "writeIfChanged (wa\<lparr>console := console wa @ skipWarnings order' ?files symbols\<rparr>)
             ?spriteFile (spriteOutput symbols) (GeneratedSprite ?rel) = Inr vb"
    and vb_fs: "processCwd vb = processCwd wb" "contents vb = contents wb"
      "directories vb = directories wb" "denied vb = denied wb" "writes vb = writes wb"
    by auto
  have sprite': "generateSvgSprite h order' wa ?files (inputDir props) ?spriteFile ?rel = Inr vb"
  proof -
    from tasks have "promiseAll (map (symbolTask h wa (inputDir props)) ?files) = Inr symbols"
      by (simp add: promiseAll_Inr_iff)
    with vb show ?thesis
      by (simp add: generateSvgSprite_def Let_def)
  qed
  show ?thesis
  proof (cases ?typed)
    case True
    with w1 have "writeIfChanged wb ?typesFile (typesOutput ?names) (GeneratedTypes ?typesFile) = Inr w1"
      by (simp add: generateTypes_def Let_def)
    from writeIfChanged_same_files [OF vb_fs this]
    obtain v1 where "writeIfChanged vb ?typesFile (typesOutput ?names) (GeneratedTypes ?typesFile) = Inr v1"
      and "contents v1 = contents w1" "directories v1 = directories w1" "writes v1 = writes w1"
      by blast
    with True found show ?thesis
      by (simp add: generateIcons_def Let_def wa sprite' generateTypes_def)
  next
    case False
    with w1 have "w1 = wb" by simp
    with False found vb_fs show ?thesis
      by (simp add: generateIcons_def Let_def wa sprite')
  qed
qed

text \<open>
  Claim C5, as amended. A run has returned; the discovery in the world it left returns
  the same files, and these files have the text they had; with the manifest enabled, the
  sprite and the manifest are two different files. Then a second run, whatever the order
  in which its tasks complete, returns as well and writes nothing: the log of writes, the
  files and the directories are those the first run left, so the sprite and the manifest
  on disk are byte for byte the texts the second run generated. The files a run leaves do
  not depend on the order in which its tasks complete.
\<close>

theorem second_run_writes_nothing:
  assumes first: "generateIcons h order w props = Inr w1"
    and same_files: "glob_sync h w1 (inputDir props) = glob_sync h w (inputDir props)"
    and same_texts: "\<forall>f\<in>set (glob_sync h w (inputDir props)).
          contents w1 (resolve (processCwd w) (path_join [inputDir props, f]))
            = contents w (resolve (processCwd w) (path_join [inputDir props, f]))"
    and apart: "withTypes props = Some True \<longrightarrow>
          resolve (processCwd w)
            (path_join [outputDir props,
                        case fileName props of None \<Rightarrow> ''sprite.svg'' | Some f \<Rightarrow> f])
          \<noteq> resolve (processCwd w) (path_join [outputDir props, ''types.ts''])"
  shows "(\<exists>w2. generateIcons h order' w1 props = Inr w2
            \<and> writes w2 = writes w1 \<and> contents w2 = contents w1
            \<and> directories w2 = directories w1)
       \<and> (\<exists>w1'. generateIcons h order' w props = Inr w1'
            \<and> contents w1' = contents w1 \<and> directories w1' = directories w1
            \<and> writes w1' = writes w1)"
  using second_run_noop [OF first same_files same_texts apart, of order']
    run_order_irrelevant [OF first, of order']
  by (rule conjI)


section \<open>The sample project, evaluated\<close>

lemmas sample_eval = sampleHost_def sampleGlob_def sampleProps_def sampleParse_def arrowSvg_def

lemmas pipeline_eval = generateIcons_def generateSvgSprite_def generateTypes_def symbolTask_def
  skipWarnings_def spriteOutput_def typesOutput_def xmlDeclaration_def svgOpenTag_def newline_def
  writeIfChanged_def symbolOf_def configResolved_def

text \<open>
  Claim C1 fails on the code. In the sample project \<open>broken.svg\<close> has no root vector
  element: the sprite holds the one symbol \<open>ArrowRight\<close>, and the manifest of the same run
  lists \<open>ArrowRight\<close> and \<open>Broken\<close>.
\<close>

theorem manifest_lists_skipped_file:
  \<open>(case generateIcons sampleHost [0, 1] sampleWorld sampleProps of
      Inl e \<Rightarrow> None
    | Inr w' \<Rightarrow> Some (contents w' [''proj'', ''out'', ''sprite.svg''],
                     contents w' [''proj'', ''out'', ''types.ts'']))
   = Some (Some ''<?xml version="1.0" encoding="UTF-8"?>\<newline><svg xmlns="http://www.w3.org/2000/svg" xmlns:xlink="http://www.w3.org/1999/xlink" width="0" height="0">\<newline><defs>\<newline><symbol viewBox="0 0 24 24" id="ArrowRight"><path></path></symbol>\<newline></defs>\<newline></svg>'',
           Some ''// This file is generated by icon spritesheet generator\<newline>\<newline>export type IconName =\<newline>  | "ArrowRight"\<newline>  | "Broken"\<newline>\<newline>export const iconNames = [\<newline>  "ArrowRight",\<newline>  "Broken",\<newline>] as const\<newline>'')\<close>
  by (simp add: pipeline_eval sample_eval fs_eval path_eval markup_eval ident_eval)

text \<open>
  Claim C5 as stated fails when the sprite is named like the manifest: each run writes the
  sprite and then the manifest into the same file, so the second run finds the manifest
  where it compares the sprite, and writes both again. The discovered files and their
  texts are unchanged.
\<close>

theorem second_run_counterexample:
  "(case generateIcons sampleHost [0, 1] sampleWorld (sampleProps\<lparr>fileName := Some ''types.ts''\<rparr>) of
      Inl e \<Rightarrow> None
    | Inr w1 \<Rightarrow>
        Some (glob_sync sampleHost w1 ''icons'',
              contents w1 [''proj'', ''icons'', ''arrow-right.svg''] = Some arrowSvg,
              contents w1 [''proj'', ''icons'', ''broken.svg''] = Some ''<p>no icon</p>'',
              map fst (writes w1),
              case generateIcons sampleHost [0, 1] w1 (sampleProps\<lparr>fileName := Some ''types.ts''\<rparr>) of
                Inl e \<Rightarrow> None
              | Inr w2 \<Rightarrow> Some (map fst (drop (length (writes w1)) (writes w2)))))
   = Some ([''arrow-right.svg'', ''broken.svg''], True, True,
           [ [''proj'', ''out'', ''types.ts''], [''proj'', ''out'', ''types.ts''] ],
           Some [ [''proj'', ''out'', ''types.ts''], [''proj'', ''out'', ''types.ts''] ])"
  by (simp add: pipeline_eval sample_eval fs_eval path_eval markup_eval ident_eval)


text \<open>
  Claim C2 fails on the code. The hook looks for the sprite below the override and then
  runs the pipeline without it: with the override \<open>/proj/app\<close> the sprite of the
  application is found and nothing happens, without it \<open>/proj/out\<close> is created and both
  files are written there. In \<open>generateIcons\<close> itself the directory that \<open>mkdir\<close> creates is
  the output directory relative to the override, resolved against the working directory
  of the process: with the override \<open>/proj/app\<close> it creates \<open>/out\<close>, and the write into
  \<open>/proj/out\<close> fails.
\<close>

theorem cwd_changes_effects:
  "(case configResolved sampleHost [0, 1] nestedWorld (sampleProps\<lparr>cwd := Some ''/proj/app''\<rparr>) of
      Inl e \<Rightarrow> None
    | Inr w' \<Rightarrow> Some (map fst (writes w'), [''proj'', ''out''] \<in> directories w'))
     = Some ([], False)
   \<and> (case configResolved sampleHost [0, 1] nestedWorld sampleProps of
        Inl e \<Rightarrow> None
      | Inr w' \<Rightarrow> Some (map fst (writes w'), [''proj'', ''out''] \<in> directories w'))
     = Some ([ [''proj'', ''out'', ''sprite.svg''], [''proj'', ''out'', ''types.ts''] ], True)
   \<and> path_relative (processCwd sampleWorld) ''/proj/app'' ''out'' = ''../out''
   \<and> map_sum id (\<lambda>w'. ([''out''] \<in> directories w', [''proj'', ''out''] \<in> directories w'))
        (mkdir sampleWorld ''../out'') = Inr (True, False)
   \<and> generateIcons sampleHost [0, 1] sampleWorld (sampleProps\<lparr>cwd := Some ''/proj/app''\<rparr>)
     = Inl ENOENT
   \<and> map_sum id (\<lambda>w'. map fst (writes w')) (generateIcons sampleHost [0, 1] sampleWorld sampleProps)
     = Inr [ [''proj'', ''out'', ''sprite.svg''], [''proj'', ''out'', ''types.ts''] ]"
  by (simp add: pipeline_eval sample_eval fs_eval path_eval markup_eval ident_eval nestedWorld_def)


lemma sample_files:
  "glob_sync sampleHost sampleWorld ''icons'' = [''arrow-right.svg'', ''broken.svg'']"
  by (simp add: sample_eval sampleWorld_def path_eval)

lemma sample_first_run:
  "\<exists>w1. generateIcons sampleHost [0, 1] sampleWorld sampleProps = Inr w1
        \<and> glob_sync sampleHost w1 ''icons'' = [''arrow-right.svg'', ''broken.svg'']
        \<and> contents w1 [''proj'', ''icons'', ''arrow-right.svg''] = Some arrowSvg
        \<and> contents w1 [''proj'', ''icons'', ''broken.svg''] = Some ''<p>no icon</p>''"
proof -
  have "case generateIcons sampleHost [0, 1] sampleWorld sampleProps of
          Inl e \<Rightarrow> False
        | Inr w1 \<Rightarrow>
            glob_sync sampleHost w1 ''icons'' = [''arrow-right.svg'', ''broken.svg'']
            \<and> contents w1 [''proj'', ''icons'', ''arrow-right.svg''] = Some arrowSvg
            \<and> contents w1 [''proj'', ''icons'', ''broken.svg''] = Some ''<p>no icon</p>''"
    by (simp add: pipeline_eval sample_eval fs_eval path_eval markup_eval ident_eval)
  then show ?thesis
    by (cases "generateIcons sampleHost [0, 1] sampleWorld sampleProps") simp_all
qed

theorem second_run_writes_nothing_witness:
  "(case generateIcons sampleHost [0, 1] sampleWorld sampleProps of
      Inl e \<Rightarrow> None
    | Inr w1 \<Rightarrow>
        (case generateIcons sampleHost [1, 0] w1 sampleProps of
           Inl e \<Rightarrow> None
         | Inr w2 \<Rightarrow> Some (writes w2 = writes w1 \<and> contents w2 = contents w1)))
   = Some True"
proof -
  from sample_first_run obtain w1
    where run: "generateIcons sampleHost [0, 1] sampleWorld sampleProps = Inr w1"
      and files1: "glob_sync sampleHost w1 ''icons'' = [''arrow-right.svg'', ''broken.svg'']"
      and texts1: "contents w1 [''proj'', ''icons'', ''arrow-right.svg''] = Some arrowSvg"
        "contents w1 [''proj'', ''icons'', ''broken.svg''] = Some ''<p>no icon</p>''"
    by blast
  have same_files: "glob_sync sampleHost w1 (inputDir sampleProps)
      = glob_sync sampleHost sampleWorld (inputDir sampleProps)"
    using files1 sample_files by (simp add: sampleProps_def)
  have same_texts: "\<forall>f\<in>set (glob_sync sampleHost sampleWorld (inputDir sampleProps)).
      contents w1 (resolve (processCwd sampleWorld) (path_join [inputDir sampleProps, f]))
        = contents sampleWorld (resolve (processCwd sampleWorld) (path_join [inputDir sampleProps, f]))"
    using texts1 sample_files by (simp add: sampleProps_def sampleWorld_def path_eval)
  have apart: "withTypes sampleProps = Some True \<longrightarrow>
      resolve (processCwd sampleWorld)
        (path_join [outputDir sampleProps,
                    case fileName sampleProps of None \<Rightarrow> ''sprite.svg'' | Some f \<Rightarrow> f])
      \<noteq> resolve (processCwd sampleWorld) (path_join [outputDir sampleProps, ''types.ts''])"
    by (simp add: sampleProps_def sampleWorld_def path_eval)
  from second_run_writes_nothing [OF run same_files same_texts apart, of "[1, 0]", THEN conjunct1]
  obtain w2 where "generateIcons sampleHost [1, 0] w1 sampleProps = Inr w2"
    "writes w2 = writes w1" "contents w2 = contents w1"
    by blast
  with run show ?thesis by simp
qed


theorem output_paths_witness:
  \<open>(case generateIcons sampleHost [0, 1] sampleWorld (sampleProps\<lparr>fileName := Some ''icons.svg''\<rparr>) of
      Inl e \<Rightarrow> None
    | Inr w' \<Rightarrow> Some (contents w' [''proj'', ''out'', ''types.ts''],
                     contents w' [''proj'', ''out'', ''sprite.svg'']))
   = Some (Some ''// This file is generated by icon spritesheet generator\<newline>\<newline>export type IconName =\<newline>  | "ArrowRight"\<newline>  | "Broken"\<newline>\<newline>export const iconNames = [\<newline>  "ArrowRight",\<newline>  "Broken",\<newline>] as const\<newline>'',
           None)
   \<and> (case generateIcons sampleHost [0, 1] sampleWorld (sampleProps\<lparr>withTypes := None\<rparr>) of
        Inl e \<Rightarrow> None
      | Inr w' \<Rightarrow> Some (contents w' [''proj'', ''out'', ''types.ts'']))
     = Some None\<close>
proof -
  let ?props = "sampleProps\<lparr>fileName := Some ''icons.svg''\<rparr>"
  let ?plain = "sampleProps\<lparr>withTypes := None\<rparr>"
  have "case generateIcons sampleHost [0, 1] sampleWorld ?props of Inl e \<Rightarrow> False | Inr w' \<Rightarrow> True"
    by (simp add: pipeline_eval sample_eval fs_eval path_eval markup_eval ident_eval)
  then obtain w' where run: "generateIcons sampleHost [0, 1] sampleWorld ?props = Inr w'"
    by (cases "generateIcons sampleHost [0, 1] sampleWorld ?props") simp_all
  have "case generateIcons sampleHost [0, 1] sampleWorld ?plain of Inl e \<Rightarrow> False | Inr w' \<Rightarrow> True"
    by (simp add: pipeline_eval sample_eval fs_eval path_eval markup_eval ident_eval)
  then obtain v' where plain: "generateIcons sampleHost [0, 1] sampleWorld ?plain = Inr v'"
    by (cases "generateIcons sampleHost [0, 1] sampleWorld ?plain") simp_all
  have found: "glob_sync sampleHost sampleWorld (inputDir ?props) \<noteq> []"
    "glob_sync sampleHost sampleWorld (inputDir ?plain) \<noteq> []"
    using sample_files by (simp_all add: sampleProps_def)
  have names: \<open>typesOutput (map iconName [''arrow-right.svg'', ''broken.svg'']) =
      ''// This file is generated by icon spritesheet generator\<newline>\<newline>export type IconName =\<newline>  | "ArrowRight"\<newline>  | "Broken"\<newline>\<newline>export const iconNames = [\<newline>  "ArrowRight",\<newline>  "Broken",\<newline>] as const\<newline>''\<close>
    by (simp add: typesOutput_def newline_def ident_eval)
  have paths: "resolve [''proj''] (path_join [''out'', ''types.ts'']) = [''proj'', ''out'', ''types.ts'']"
    "resolve [''proj''] (path_join [''out'', ''icons.svg'']) = [''proj'', ''out'', ''icons.svg'']"
    "resolve [''proj''] (path_join [''out'', ''sprite.svg'']) = [''proj'', ''out'', ''sprite.svg'']"
    by (simp_all add: path_eval)
  have absent: "contents sampleWorld [''proj'', ''out'', ''sprite.svg''] = None"
    "contents sampleWorld [''proj'', ''out'', ''types.ts''] = None"
    by (simp_all add: sampleWorld_def)
  from output_paths [OF run found(1)] sample_files names paths absent
  have "contents w' [''proj'', ''out'', ''types.ts''] = Some (typesOutput (map iconName [''arrow-right.svg'', ''broken.svg'']))
      \<and> contents w' [''proj'', ''out'', ''sprite.svg''] = None"
    by (simp add: Let_def sampleProps_def sampleWorld_def)
  moreover from output_paths [OF plain found(2)] paths absent
  have "contents v' [''proj'', ''out'', ''types.ts''] = None"
    by (simp add: Let_def sampleProps_def sampleWorld_def)
  ultimately show ?thesis
    using run plain names by simp
qed

theorem skip_isolation_witness:
  \<open>(case generateSvgSprite sampleHost [1, 0] sampleWorld [''arrow-right.svg'', ''broken.svg'']
           ''icons'' ''icons/sprite.svg'' ''icons'' of
      Inl e \<Rightarrow> None
    | Inr w' \<Rightarrow> Some (contents w' [''proj'', ''icons'', ''sprite.svg''], take 1 (console w')))
   = Some (Some ''<?xml version="1.0" encoding="UTF-8"?>\<newline><svg xmlns="http://www.w3.org/2000/svg" xmlns:xlink="http://www.w3.org/1999/xlink" width="0" height="0">\<newline><defs>\<newline><symbol viewBox="0 0 24 24" id="ArrowRight"><path></path></symbol>\<newline></defs>\<newline></svg>'',
           [NoSvgTag ''broken.svg''])\<close>
proof -
  have good: "\<forall>f\<in>set ([''arrow-right.svg''] @ []). \<exists>input.
      readFile sampleWorld (path_join [''icons'', f]) = Inr input
      \<and> parse_svg sampleHost input = Some ((\<lambda>_. arrowElement) f)"
    by (simp add: sample_eval fs_eval path_eval)
  have bad: "\<exists>input. readFile sampleWorld (path_join [''icons'', ''broken.svg'']) = Inr input
      \<and> parse_svg sampleHost input = None"
    by (simp add: sample_eval fs_eval path_eval)
  have order: "distinct [1, 0 :: nat]"
    "set [1, 0 :: nat] = {..<length ([''arrow-right.svg''] @ ''broken.svg'' # [])}"
    by auto
  have writable: "resolve (processCwd sampleWorld) ''icons/sprite.svg'' \<notin> denied sampleWorld"
    "\<not> isDir sampleWorld (resolve (processCwd sampleWorld) ''icons/sprite.svg'')"
    "isDir sampleWorld (butlast (resolve (processCwd sampleWorld) ''icons/sprite.svg''))"
    by (simp_all add: fs_eval path_eval)
  from skip_isolation [of "[''arrow-right.svg'']" "[]" sampleWorld "''icons''" sampleHost
      "\<lambda>_. arrowElement" "''broken.svg''" "[1, 0]" "''icons/sprite.svg''" "''icons''",
      OF good bad order writable]
  obtain w' rest where "generateSvgSprite sampleHost [1, 0] sampleWorld
        ([''arrow-right.svg''] @ ''broken.svg'' # []) ''icons'' ''icons/sprite.svg'' ''icons'' = Inr w'"
    and "contents w' (resolve (processCwd sampleWorld) ''icons/sprite.svg'') =
             Some (joinWith newline
                    ([xmlDeclaration, svgOpenTag, ''<defs>'']
                     @ map (\<lambda>f. trim (toString (toSymbol (iconName f) arrowElement))) ([''arrow-right.svg''] @ [])
                     @ [''</defs>'', ''</svg>'']))"
    and "console w' = console sampleWorld @ [NoSvgTag ''broken.svg''] @ rest"
    by blast
  then show ?thesis
    by (simp add: xmlDeclaration_def svgOpenTag_def newline_def markup_eval ident_eval
        sampleWorld_def path_eval)
qed

end
